theory Spec2Isabelle
  imports Complex_Main "HOL-Library.Word"
begin

unbundle bit_operations_syntax

section \<open>Data model\<close>

text \<open>
  The module \<^verbatim>\<open>trezor/ui/__init__.py\<close> runs under MicroPython. Its integers are
  unbounded and are modelled by \<^typ>\<open>int\<close>; \<^verbatim>\<open>//\<close> and \<^verbatim>\<open>%\<close> round towards minus
  infinity, as \<open>div\<close> and \<open>mod\<close> on \<^typ>\<open>int\<close> do; \<^verbatim>\<open>&\<close>, \<^verbatim>\<open>|\<close>, \<^verbatim>\<open><<\<close> and \<^verbatim>\<open>>>\<close> are
  \<open>AND\<close>, \<open>OR\<close>, \<open>push_bit\<close> and \<open>drop_bit\<close> on two's complement integers.
\<close>

text \<open>
  The built-in exceptions that the modelled statements raise, and \<open>Exception msg\<close> for
  any other exception that a method supplied by a subclass may raise.
\<close>

datatype error = ZeroDivisionError | ValueError | NameError | Exception string

text \<open>
  A position is the tuple \<^verbatim>\<open>(x, y)\<close>, an area the tuple \<^verbatim>\<open>(x, y, w, h)\<close>.
\<close>

type_synonym pos = "int \<times> int"
type_synonym area = "int \<times> int \<times> int \<times> int"

text \<open>
  The constants that the module imports from \<^verbatim>\<open>trezorui.Display\<close>, \<^verbatim>\<open>trezor.ui.style\<close>
  and \<^verbatim>\<open>trezor.io\<close>. Their defining files are not part of the sources, so they are
  parameters of the model.
\<close>

record platform =
  WIDTH :: int
  HEIGHT :: int
  BACKLIGHT_DIM :: int
  BACKLIGHT_NORMAL :: int
  BACKLIGHT_MAX :: int
  TOUCH :: int
  TOUCH_START :: int
  TOUCH_MOVE :: int
  TOUCH_END :: int

text \<open>
  One instance of the parameters, used where a statement is evaluated on concrete
  numbers: a 240 x 240 display.
\<close>

definition trezor_t :: platform where
  "trezor_t = \<lparr>WIDTH = 240, HEIGHT = 240, BACKLIGHT_DIM = 5, BACKLIGHT_NORMAL = 150,
     BACKLIGHT_MAX = 255, TOUCH = 255, TOUCH_START = 1, TOUCH_MOVE = 2, TOUCH_END = 4\<rparr>"

text \<open>
  Modelled from the spec: the display adapter (\<^verbatim>\<open>trezorui.Display\<close>, a native module
  that is not part of the sources). The spec gives it a backlight level that
  \<^verbatim>\<open>backlight()\<close> reads and \<^verbatim>\<open>backlight(level)\<close> sets, and an orientation that
  \<^verbatim>\<open>orientation()\<close> reads.
\<close>

record display =
  backlight :: int
  orientation :: int

section \<open>Colour utilities\<close>

text \<open>
  \<^verbatim>\<open>int(x)\<close> truncates towards zero. The interpolation factor \<^verbatim>\<open>t\<close> is a Python float;
  it is modelled by an exact rational. For \<open>t = 0\<close> and \<open>t = 1\<close> and channel values
  below 256 the floating-point computation is exact, so model and code agree there.
\<close>

definition py_int :: "rat \<Rightarrow> int" where
  "py_int q = (if 0 \<le> q then \<lfloor>q\<rfloor> else \<lceil>q\<rceil>)"

definition lerpi :: "int \<Rightarrow> int \<Rightarrow> rat \<Rightarrow> int" where
  "lerpi a b t = py_int (of_int a + t * of_int (b - a))"

definition rgb :: "int \<Rightarrow> int \<Rightarrow> int \<Rightarrow> int" where
  "rgb r g b = (push_bit 8 (r AND 0xF8)) OR (push_bit 3 (g AND 0xFC)) OR (drop_bit 3 (b AND 0xF8))"

definition blend :: "int \<Rightarrow> int \<Rightarrow> rat \<Rightarrow> int" where
  "blend ca cb t =
     rgb (lerpi ((drop_bit 8 ca) AND 0xF8) ((drop_bit 8 cb) AND 0xF8) t)
         (lerpi ((drop_bit 3 ca) AND 0xFC) ((drop_bit 3 cb) AND 0xFC) t)
         (lerpi ((push_bit 3 ca) AND 0xF8) ((push_bit 3 cb) AND 0xF8) t)"

text \<open>A valid RGB565 colour is a 16-bit value.\<close>

definition rgb565 :: "int \<Rightarrow> bool" where
  "rgb565 c = (0 \<le> c \<and> c < 65536)"

section \<open>Geometry utilities\<close>

text \<open>
  \<^verbatim>\<open>rotate\<close> reads the orientation of the display and has one \<^verbatim>\<open>if\<close> per known value.
  After the last \<^verbatim>\<open>if\<close> the function body ends, so Python returns \<^verbatim>\<open>None\<close>: the
  result is \<open>Inr None\<close>. No statement of the function raises, so no branch is \<open>Inl\<close>.
\<close>

definition rotate :: "platform \<Rightarrow> display \<Rightarrow> pos \<Rightarrow> error + pos option" where
  "rotate P d p =
     (let r = orientation d in
      if r = 0 then Inr (Some p)
      else (case p of (x, y) \<Rightarrow>
        if r = 90 then Inr (Some (y, WIDTH P - x))
        else if r = 180 then Inr (Some (WIDTH P - x, HEIGHT P - y))
        else if r = 270 then Inr (Some (HEIGHT P - y, x))
        else Inr None))"

text \<open>
  Applying \<^verbatim>\<open>rotate\<close> once at each orientation of a list, feeding each result to the next
  call. A call that does not return a point ends the run with its result.
\<close>

fun rotate_seq :: "platform \<Rightarrow> display \<Rightarrow> int list \<Rightarrow> pos \<Rightarrow> error + pos option" where
  "rotate_seq P d [] p = Inr (Some p)"
| "rotate_seq P d (r # rs) p =
     (case rotate P (d\<lparr>orientation := r\<rparr>) p of
        Inr (Some q) \<Rightarrow> rotate_seq P d rs q
      | other \<Rightarrow> other)"

definition VIEWX :: int where
  "VIEWX = 6"

definition VIEWY :: int where
  "VIEWY = 9"

text \<open>
  \<^verbatim>\<open>grid\<close>: the two floor divisions raise \<^verbatim>\<open>ZeroDivisionError\<close> on a zero divisor, in
  the order of the source (\<^verbatim>\<open>w\<close>, \<^verbatim>\<open>h\<close>; the later \<^verbatim>\<open>%\<close> and \<^verbatim>\<open>//\<close> by \<^verbatim>\<open>n_x\<close> are only
  reached when \<^verbatim>\<open>n_x\<close> is not zero).
\<close>

definition grid ::
  "int \<Rightarrow> int \<Rightarrow> int \<Rightarrow> int \<Rightarrow> int \<Rightarrow> int \<Rightarrow> int \<Rightarrow> int \<Rightarrow> int \<Rightarrow> int \<Rightarrow> error + area" where
  "grid i n_x n_y start_x start_y end_x end_y cells_x cells_y spacing =
     (if n_x = 0 then Inl ZeroDivisionError
      else let w = (end_x - start_x) div n_x in
        if n_y = 0 then Inl ZeroDivisionError
        else let h = (end_y - start_y) div n_y;
                 x = (i mod n_x) * w;
                 y = (i div n_x) * h
             in Inr (x + start_x, y + start_y, (w - spacing) * cells_x, (h - spacing) * cells_y))"

text \<open>The call with every default argument but the index.\<close>

definition grid_default :: "platform \<Rightarrow> int \<Rightarrow> error + area" where
  "grid_default P i = grid i 3 5 VIEWX VIEWY (WIDTH P - VIEWX) (HEIGHT P - VIEWY) 1 1 0"

text \<open>
  The pixels of a cell and of a view, as half-open rectangles: a cell \<open>(x, y, w, h)\<close> is
  \<open>[x, x + w) \<times> [y, y + h)\<close>, the view is \<open>[start_x, end_x) \<times> [start_y, end_y)\<close>. A call
  that raised has no pixels.
\<close>

fun in_cell :: "pos \<Rightarrow> error + area \<Rightarrow> bool" where
  "in_cell (px, py) (Inr (x, y, w, h)) = (x \<le> px \<and> px < x + w \<and> y \<le> py \<and> py < y + h)"
| "in_cell (px, py) (Inl e) = False"

definition in_view :: "int \<Rightarrow> int \<Rightarrow> int \<Rightarrow> int \<Rightarrow> pos \<Rightarrow> bool" where
  "in_view start_x start_y end_x end_y p =
     (case p of (px, py) \<Rightarrow> start_x \<le> px \<and> px < end_x \<and> start_y \<le> py \<and> py < end_y)"

text \<open>
  The cells \<^verbatim>\<open>grid(i)\<close> for \<^verbatim>\<open>i in range(n_x * n_y)\<close>, with \<^verbatim>\<open>cells_x = cells_y = 1\<close> and
  \<^verbatim>\<open>spacing = 0\<close>, and whether one of them holds a pixel.
\<close>

definition grid_cells :: "int \<Rightarrow> int \<Rightarrow> int \<Rightarrow> int \<Rightarrow> int \<Rightarrow> int \<Rightarrow> (error + area) list" where
  "grid_cells n_x n_y start_x start_y end_x end_y =
     map (\<lambda>i. grid i n_x n_y start_x start_y end_x end_y 1 1 0) [0 .. n_x * n_y - 1]"

definition covered :: "(error + area) list \<Rightarrow> pos \<Rightarrow> bool" where
  "covered cells p = list_ex (in_cell p) cells"

section \<open>Effects and generators\<close>

text \<open>
  The awaitables of the scheduler that the module creates: \<^verbatim>\<open>loop.sleep(us)\<close> and
  \<^verbatim>\<open>loop.wait(source)\<close>. A generator hands one of them to the scheduler with \<^verbatim>\<open>yield\<close>.
\<close>

datatype syscall = Sleep int | Wait int

text \<open>
  What the module does to its collaborators, in the order in which it happens:
  \<^item> \<open>Backlight_write v\<close>: \<^verbatim>\<open>display.backlight(v)\<close>;
  \<^item> \<open>Yield sc\<close>: the running generator suspends with \<^verbatim>\<open>yield sc\<close>;
  \<^item> \<open>Sleep_us us\<close>: the blocking \<^verbatim>\<open>utime.sleep_us(us)\<close>;
  \<^item> \<open>Display_clear\<close>: \<^verbatim>\<open>display.clear()\<close>;
  \<^item> \<open>Schedule_slide\<close>, \<open>Close_slide\<close>: \<^verbatim>\<open>loop.schedule(slide)\<close>, \<^verbatim>\<open>loop.close(slide)\<close>;
  \<^item> \<open>On_layout_close\<close>: \<^verbatim>\<open>workflow.onlayoutclose(layout)\<close>;
  \<^item> \<open>Dispatch event x y\<close>: a call of \<^verbatim>\<open>Control.dispatch\<close>;
  \<^item> \<open>Render_call\<close>, \<open>Touch_call event pos\<close>: calls of \<^verbatim>\<open>Widget.render\<close> and \<^verbatim>\<open>Widget.touch\<close>.
\<close>

datatype effect =
    Backlight_write int
  | Yield syscall
  | Sleep_us int
  | Display_clear
  | Schedule_slide
  | Close_slide
  | On_layout_close
  | Dispatch int int int
  | Render_call
  | Touch_call int "int list"

text \<open>
  The result of resuming a generator once: it suspends at a \<^verbatim>\<open>yield\<close> (with the state to
  resume from), returns, or raises.
\<close>

datatype ('t, 'r, 'e) resumed = Suspend 't | Return 'r | Raise 'e

text \<open>
  \<^verbatim>\<open>backlight_slide\<close> as a generator. Calling it only creates the generator; its body
  starts at the first resumption, which reads the backlight and builds the range, and
  each resumption runs up to the next \<^verbatim>\<open>yield sleep\<close>.
\<close>

datatype slide_state =
    Slide_created int int int
  | Slide_running int "int list"

text \<open>
  Modelled from the spec: the scheduling status of the background fade generator
  \<^verbatim>\<open>slide\<close> of the layout decorator (the scheduler \<^verbatim>\<open>trezor.loop\<close> is not part of the
  sources). \<^verbatim>\<open>loop.schedule\<close> enqueues a task without awaiting it; \<^verbatim>\<open>loop.close\<close> stops
  a task, and closing a finished task changes nothing.
\<close>

datatype bg_task =
    Bg_none
  | Bg_created slide_state
  | Bg_scheduled slide_state
  | Bg_finished
  | Bg_closed

text \<open>
  The state that the generators act on: the display, the effects so far, the background
  fade task, and the object \<^verbatim>\<open>self\<close> of a control (unused by the animations).
\<close>

record 'a world =
  disp :: display
  effects :: "effect list"
  slide :: bg_task
  app :: 'a

definition emit :: "effect \<Rightarrow> 'a world \<Rightarrow> 'a world" where
  "emit e w = w\<lparr>effects := effects w @ [e]\<rparr>"

definition backlight_set :: "int \<Rightarrow> 'a world \<Rightarrow> 'a world" where
  "backlight_set v w = emit (Backlight_write v) (w\<lparr>disp := (disp w)\<lparr>backlight := v\<rparr>\<rparr>)"

text \<open>
  The scheduler resuming one task \<open>n\<close> times, or until it returns or raises. The result is
  \<open>None\<close> while the task is still suspended.
\<close>

fun run_task ::
  "('t \<Rightarrow> 'w \<Rightarrow> ('t, 'r, 'e) resumed \<times> 'w) \<Rightarrow> nat \<Rightarrow> 't \<Rightarrow> 'w \<Rightarrow> ('e + 'r) option \<times> 'w" where
  "run_task resume 0 st w = (None, w)"
| "run_task resume (Suc n) st w =
     (case resume st w of
        (Suspend st', w') \<Rightarrow> run_task resume n st' w'
      | (Return r, w') \<Rightarrow> (Some (Inr r), w')
      | (Raise e, w') \<Rightarrow> (Some (Inl e), w'))"

section \<open>Python ranges\<close>

text \<open>
  The values that a \<^verbatim>\<open>for\<close> loop over \<^verbatim>\<open>range(i, stop, step)\<close> takes, one at a time: upwards
  for a positive step while \<open>i < stop\<close>, downwards for a negative step while \<open>stop < i\<close>.
\<close>

function range_up :: "int \<Rightarrow> int \<Rightarrow> int \<Rightarrow> int list" where
  "range_up i stop step = (if 0 < step \<and> i < stop then i # range_up (i + step) stop step else [])"
  by pat_completeness auto
termination
  by (relation "measure (\<lambda>(i, stop, step). nat (stop - i))") auto

function range_down :: "int \<Rightarrow> int \<Rightarrow> int \<Rightarrow> int list" where
  "range_down i stop step = (if step < 0 \<and> stop < i then i # range_down (i + step) stop step else [])"
  by pat_completeness auto
termination
  by (relation "measure (\<lambda>(i, stop, step). nat (i - stop))") auto

declare range_up.simps [simp del] range_down.simps [simp del]

text \<open>\<^verbatim>\<open>range(start, stop, step)\<close>: a zero step raises \<^verbatim>\<open>ValueError\<close>.\<close>

definition py_range :: "int \<Rightarrow> int \<Rightarrow> int \<Rightarrow> error + int list" where
  "py_range start stop step =
     (if step = 0 then Inl ValueError
      else if 0 < step then Inr (range_up start stop step)
      else Inr (range_down start stop step))"

section \<open>Animation generators\<close>

text \<open>
  \<^verbatim>\<open>alert\<close> as a generator: created with its argument, and once started suspended inside
  its loop with the backlight level read at entry and the loop values still to come. When
  the loop is over it writes that level back and returns.
\<close>

datatype alert_state =
    Alert_created int
  | Alert_running int "int list"

fun alert_loop ::
  "platform \<Rightarrow> int \<Rightarrow> int list \<Rightarrow> 'a world \<Rightarrow> (alert_state, unit, error) resumed \<times> 'a world" where
  "alert_loop P current [] w = (Return (), backlight_set current w)"
| "alert_loop P current (i # is) w =
     (if i mod 2 = 0
      then (Suspend (Alert_running current is),
            emit (Yield (Sleep 20000)) (backlight_set (BACKLIGHT_MAX P) w))
      else (Suspend (Alert_running current is),
            emit (Yield (Sleep 80000)) (backlight_set (BACKLIGHT_NORMAL P) w)))"

fun alert_resume ::
  "platform \<Rightarrow> alert_state \<Rightarrow> 'a world \<Rightarrow> (alert_state, unit, error) resumed \<times> 'a world" where
  "alert_resume P (Alert_created count) w =
     (let current = backlight (disp w) in
      case py_range 0 (count * 2) 1 of
        Inl e \<Rightarrow> (Raise e, w)
      | Inr is \<Rightarrow> alert_loop P current is w)"
| "alert_resume P (Alert_running current is) w = alert_loop P current is w"

text \<open>
  \<^verbatim>\<open>backlight_slide\<close>: the first resumption reads the backlight and builds the range (the
  step is negated when the backlight is above the target); each loop value is written to
  the backlight before the generator suspends on its sleep.
\<close>

fun slide_loop ::
  "int \<Rightarrow> int list \<Rightarrow> 'a world \<Rightarrow> (slide_state, unit, error) resumed \<times> 'a world" where
  "slide_loop delay [] w = (Return (), w)"
| "slide_loop delay (i # is) w =
     (Suspend (Slide_running delay is), emit (Yield (Sleep delay)) (backlight_set i w))"

fun backlight_slide_resume ::
  "slide_state \<Rightarrow> 'a world \<Rightarrow> (slide_state, unit, error) resumed \<times> 'a world" where
  "backlight_slide_resume (Slide_created val delay step) w =
     (let current = backlight (disp w) in
      case py_range current val (if current > val then - step else step) of
        Inl e \<Rightarrow> (Raise e, w)
      | Inr is \<Rightarrow> slide_loop delay is w)"
| "backlight_slide_resume (Slide_running delay is) w = slide_loop delay is w"

text \<open>The blocking variant is an ordinary function: it runs its whole loop in one call.\<close>

fun slide_sync_loop :: "int \<Rightarrow> int list \<Rightarrow> 'a world \<Rightarrow> 'a world" where
  "slide_sync_loop delay [] w = w"
| "slide_sync_loop delay (i # is) w =
     slide_sync_loop delay is (emit (Sleep_us delay) (backlight_set i w))"

definition backlight_slide_sync :: "int \<Rightarrow> int \<Rightarrow> int \<Rightarrow> 'a world \<Rightarrow> (error + unit) \<times> 'a world" where
  "backlight_slide_sync val delay step w =
     (let current = backlight (disp w) in
      case py_range current val (if current > val then - step else step) of
        Inl e \<Rightarrow> (Inl e, w)
      | Inr is \<Rightarrow> (Inr (), slide_sync_loop delay is w))"

text \<open>The values written to the backlight, in order.\<close>

fun backlight_writes :: "effect list \<Rightarrow> int list" where
  "backlight_writes [] = []"
| "backlight_writes (Backlight_write v # es) = v # backlight_writes es"
| "backlight_writes (e # es) = backlight_writes es"

section \<open>Widget protocol\<close>

text \<open>
  The methods \<^verbatim>\<open>render\<close> and \<^verbatim>\<open>touch\<close> that a subclass of \<^verbatim>\<open>Widget\<close> supplies, acting on the
  widget object \<open>'s\<close>. \<^verbatim>\<open>touch\<close> returns \<^verbatim>\<open>None\<close> or a result; either method may raise.
\<close>

record ('s, 'r) widget =
  render :: "'s \<Rightarrow> error + 's"
  touch :: "int \<Rightarrow> int list \<Rightarrow> 's \<Rightarrow> error + 's \<times> 'r option"

datatype 'r widget_result = Widget_suspended | Widget_returned 'r | Widget_raised error

text \<open>
  \<^verbatim>\<open>Widget.__iter__\<close>, driven with the touch events \<^verbatim>\<open>(event, *pos)\<close> that the scheduler
  sends into the generator, in order. When the events run out the generator stays suspended
  at its \<^verbatim>\<open>yield\<close>.
\<close>

fun widget_iter ::
  "platform \<Rightarrow> ('s, 'r) widget \<Rightarrow> (int \<times> int list) list \<Rightarrow> 's world \<Rightarrow> 'r widget_result \<times> 's world" where
  "widget_iter P W [] w =
     (case render W (app w) of
        Inl e \<Rightarrow> (Widget_raised e, emit Render_call w)
      | Inr s1 \<Rightarrow> (Widget_suspended, emit (Yield (Wait (TOUCH P))) (emit Render_call (w\<lparr>app := s1\<rparr>))))"
| "widget_iter P W ((event, pos) # rest) w =
     (case render W (app w) of
        Inl e \<Rightarrow> (Widget_raised e, emit Render_call w)
      | Inr s1 \<Rightarrow>
          (let w1 = emit (Touch_call event pos)
                      (emit (Yield (Wait (TOUCH P))) (emit Render_call (w\<lparr>app := s1\<rparr>)))
           in case touch W event pos s1 of
                Inl e \<Rightarrow> (Widget_raised e, w1)
              | Inr (s2, None) \<Rightarrow> widget_iter P W rest (w1\<lparr>app := s2\<rparr>)
              | Inr (s2, Some r) \<Rightarrow> (Widget_returned r, w1\<lparr>app := s2\<rparr>)))"

section \<open>Control and Layout\<close>

definition RENDER :: int where
  "RENDER = - 1234"

definition REPAINT :: int where
  "REPAINT = - 1235"

text \<open>
  What a task can raise: \<^verbatim>\<open>Result(value)\<close>, the exception class of the module, or any
  other exception.
\<close>

datatype 'v exn = Result 'v | Failure error

text \<open>
  The object \<^verbatim>\<open>self\<close> of a \<^verbatim>\<open>Control\<close>: the attribute \<^verbatim>\<open>repaint\<close> that \<^verbatim>\<open>dispatch\<close> sets,
  and the fields of the subclass (the extension of the record). The handlers are the
  methods that a subclass overrides; each may change the object or raise.
\<close>

record control =
  repaint :: bool

record ('c, 'v) handlers =
  on_render :: "'c \<Rightarrow> 'v exn + 'c"
  on_touch_start :: "int \<Rightarrow> int \<Rightarrow> 'c \<Rightarrow> 'v exn + 'c"
  on_touch_move :: "int \<Rightarrow> int \<Rightarrow> 'c \<Rightarrow> 'v exn + 'c"
  on_touch_end :: "int \<Rightarrow> int \<Rightarrow> 'c \<Rightarrow> 'v exn + 'c"

text \<open>The handlers of the base class \<^verbatim>\<open>Control\<close>: each is \<^verbatim>\<open>pass\<close>.\<close>

definition control_handlers :: "('c, 'v) handlers" where
  "control_handlers =
     \<lparr>on_render = Inr, on_touch_start = (\<lambda>x y. Inr), on_touch_move = (\<lambda>x y. Inr),
      on_touch_end = (\<lambda>x y. Inr)\<rparr>"

text \<open>
  \<^verbatim>\<open>Control.dispatch\<close>, with the \<^verbatim>\<open>if\<close>/\<^verbatim>\<open>elif\<close> chain in the order of the source. The
  events are small integers, for which \<^verbatim>\<open>is\<close> is equality.
\<close>

definition dispatch ::
  "platform \<Rightarrow> ('m control_scheme, 'v) handlers \<Rightarrow> int \<Rightarrow> int \<Rightarrow> int \<Rightarrow> 'm control_scheme
     \<Rightarrow> 'v exn + 'm control_scheme" where
  "dispatch P H event x y self =
     (if event = RENDER then on_render H self
      else if event = TOUCH_START P then on_touch_start H x y self
      else if event = TOUCH_MOVE P then on_touch_move H x y self
      else if event = TOUCH_END P then on_touch_end H x y self
      else if event = REPAINT then Inr (self\<lparr>repaint := True\<rparr>)
      else Inr self)"

text \<open>The call \<^verbatim>\<open>self.dispatch(event, x, y)\<close> inside a task: it is recorded, then it runs.\<close>

definition do_dispatch ::
  "platform \<Rightarrow> ('m control_scheme, 'v) handlers \<Rightarrow> int \<Rightarrow> int \<Rightarrow> int \<Rightarrow> 'm control_scheme world
     \<Rightarrow> ('v exn + unit) \<times> 'm control_scheme world" where
  "do_dispatch P H event x y w =
     (case dispatch P H event x y (app w) of
        Inl e \<Rightarrow> (Inl e, emit (Dispatch event x y) w)
      | Inr c \<Rightarrow> (Inr (), (emit (Dispatch event x y) w)\<lparr>app := c\<rparr>))"

text \<open>
  The body of \<^verbatim>\<open>Layout.handle_rendering\<close> (the function that the decorator wraps): a
  generator with one suspension point. It has no \<^verbatim>\<open>finally\<close>, so closing it does nothing.
\<close>

definition handle_rendering_resume ::
  "platform \<Rightarrow> ('m control_scheme, 'v) handlers \<Rightarrow> unit \<Rightarrow> 'm control_scheme world
     \<Rightarrow> (unit, 'r, 'v exn) resumed \<times> 'm control_scheme world" where
  "handle_rendering_resume P H u w =
     (case do_dispatch P H RENDER 0 0 w of
        (Inl e, w') \<Rightarrow> (Raise e, w')
      | (Inr _, w') \<Rightarrow> (Suspend (), emit (Yield (Sleep 10000)) w'))"

definition handle_rendering_close :: "unit \<Rightarrow> 'a world \<Rightarrow> 'a world" where
  "handle_rendering_close u w = w"

text \<open>
  \<^verbatim>\<open>Layout.handle_input\<close>: the first resumption runs to \<^verbatim>\<open>yield touch\<close>; every later one
  receives a touch event \<^verbatim>\<open>(event, x, y)\<close>, dispatches it and yields again.
\<close>

datatype input_state = Input_created | Input_waiting

fun handle_input_resume ::
  "platform \<Rightarrow> ('m control_scheme, 'v) handlers \<Rightarrow> input_state \<Rightarrow> int \<times> int \<times> int
     \<Rightarrow> 'm control_scheme world \<Rightarrow> (input_state, 'r, 'v exn) resumed \<times> 'm control_scheme world" where
  "handle_input_resume P H Input_created msg w =
     (Suspend Input_waiting, emit (Yield (Wait (TOUCH P))) w)"
| "handle_input_resume P H Input_waiting (event, x, y) w =
     (case do_dispatch P H event x y w of
        (Inl e, w') \<Rightarrow> (Raise e, w')
      | (Inr _, w') \<Rightarrow> (Suspend Input_waiting, emit (Yield (Wait (TOUCH P))) w'))"

section \<open>Layout decorator\<close>

text \<open>
  Modelled from the spec: \<^verbatim>\<open>loop.schedule\<close> and \<^verbatim>\<open>loop.close\<close> of the scheduler
  (\<^verbatim>\<open>trezor.loop\<close> is not part of the sources), applied to the generator \<^verbatim>\<open>slide\<close>, and the
  scheduler resuming that task when its sleep is over. \<^verbatim>\<open>display.clear()\<close> is recorded only.
\<close>

definition loop_schedule_slide :: "'a world \<Rightarrow> 'a world" where
  "loop_schedule_slide w =
     emit Schedule_slide (w\<lparr>slide := (case slide w of Bg_created st \<Rightarrow> Bg_scheduled st | b \<Rightarrow> b)\<rparr>)"

definition loop_close_slide :: "'a world \<Rightarrow> 'a world" where
  "loop_close_slide w =
     emit Close_slide (w\<lparr>slide := (case slide w of Bg_finished \<Rightarrow> Bg_finished | b \<Rightarrow> Bg_closed)\<rparr>)"

definition display_clear :: "'a world \<Rightarrow> 'a world" where
  "display_clear w = emit Display_clear w"

definition slide_task_step :: "'a world \<Rightarrow> 'a world" where
  "slide_task_step w =
     (case slide w of
        Bg_scheduled st \<Rightarrow>
          (case backlight_slide_resume st w of
             (Suspend st', w') \<Rightarrow> w'\<lparr>slide := Bg_scheduled st'\<rparr>
           | (Return u, w') \<Rightarrow> w'\<lparr>slide := Bg_finished\<rparr>
           | (Raise e, w') \<Rightarrow> w'\<lparr>slide := Bg_finished\<rparr>)
      | b \<Rightarrow> w)"

text \<open>
  The generator \<^verbatim>\<open>inner\<close> that \<^verbatim>\<open>layout(fn)\<close> returns. It is suspended either inside
  \<^verbatim>\<open>await backlight_slide(BACKLIGHT_DIM)\<close>, before the \<^verbatim>\<open>try\<close>, or inside \<^verbatim>\<open>await layout\<close>,
  within it. The wrapped function \<open>fn\<close> is given by what its call does (it raises, or it
  returns an awaitable in its first state) and by how that awaitable resumes and closes.
\<close>

datatype 't inner_state =
    Inner_created
  | Inner_fading slide_state
  | Inner_awaiting 't

text \<open>
  The \<^verbatim>\<open>finally\<close> block when \<^verbatim>\<open>layout\<close> is bound: \<^verbatim>\<open>loop.close(slide)\<close>, then
  \<^verbatim>\<open>workflow.onlayoutclose(layout)\<close>.
\<close>

definition cleanup :: "'a world \<Rightarrow> 'a world" where
  "cleanup w = emit On_layout_close (loop_close_slide w)"

definition inner_await_layout ::
  "('t \<Rightarrow> 'a world \<Rightarrow> ('t, 'r, 'v exn) resumed \<times> 'a world) \<Rightarrow> 't \<Rightarrow> 'a world
     \<Rightarrow> ('t inner_state, 'r, 'v exn) resumed \<times> 'a world" where
  "inner_await_layout resume t w =
     (case resume t w of
        (Suspend t', w') \<Rightarrow> (Suspend (Inner_awaiting t'), w')
      | (Return r, w') \<Rightarrow> (Return r, cleanup w')
      | (Raise e, w') \<Rightarrow> (Raise e, cleanup w'))"

text \<open>
  From \<^verbatim>\<open>slide = backlight_slide(BACKLIGHT_NORMAL)\<close> on. When the call \<^verbatim>\<open>fn(*args, **kwargs)\<close>
  raises, the \<^verbatim>\<open>finally\<close> block runs with the local variable \<^verbatim>\<open>layout\<close> unbound: after
  \<^verbatim>\<open>loop.close(slide)\<close>, evaluating \<^verbatim>\<open>layout\<close> raises \<^verbatim>\<open>NameError\<close>, which replaces the
  exception of \<open>fn\<close>, and \<^verbatim>\<open>workflow.onlayoutclose\<close> is not called.
\<close>

definition inner_try ::
  "platform \<Rightarrow> 'v exn + 't \<Rightarrow> ('t \<Rightarrow> 'a world \<Rightarrow> ('t, 'r, 'v exn) resumed \<times> 'a world) \<Rightarrow> 'a world
     \<Rightarrow> ('t inner_state, 'r, 'v exn) resumed \<times> 'a world" where
  "inner_try P fn resume w0 =
     (let w = w0\<lparr>slide := Bg_created (Slide_created (BACKLIGHT_NORMAL P) 35000 20)\<rparr> in
      case fn of
        Inl e \<Rightarrow> (Raise (Failure NameError), loop_close_slide w)
      | Inr t \<Rightarrow> inner_await_layout resume t (display_clear (loop_schedule_slide w)))"

definition inner_fade ::
  "platform \<Rightarrow> 'v exn + 't \<Rightarrow> ('t \<Rightarrow> 'a world \<Rightarrow> ('t, 'r, 'v exn) resumed \<times> 'a world) \<Rightarrow> slide_state
     \<Rightarrow> 'a world \<Rightarrow> ('t inner_state, 'r, 'v exn) resumed \<times> 'a world" where
  "inner_fade P fn resume st w =
     (case backlight_slide_resume st w of
        (Suspend st', w') \<Rightarrow> (Suspend (Inner_fading st'), w')
      | (Return u, w') \<Rightarrow> inner_try P fn resume w'
      | (Raise e, w') \<Rightarrow> (Raise (Failure e), w'))"

fun inner_resume ::
  "platform \<Rightarrow> 'v exn + 't \<Rightarrow> ('t \<Rightarrow> 'a world \<Rightarrow> ('t, 'r, 'v exn) resumed \<times> 'a world)
     \<Rightarrow> 't inner_state \<Rightarrow> 'a world \<Rightarrow> ('t inner_state, 'r, 'v exn) resumed \<times> 'a world" where
  "inner_resume P fn resume Inner_created w =
     inner_fade P fn resume (Slide_created (BACKLIGHT_DIM P) 35000 20) w"
| "inner_resume P fn resume (Inner_fading st) w = inner_fade P fn resume st w"
| "inner_resume P fn resume (Inner_awaiting t) w = inner_await_layout resume t w"

text \<open>
  Closing \<^verbatim>\<open>inner\<close> raises \<^verbatim>\<open>GeneratorExit\<close> at its suspension point. Before the \<^verbatim>\<open>try\<close>
  nothing handles it. Inside \<^verbatim>\<open>await layout\<close> the awaited generator is closed first, then
  the \<^verbatim>\<open>finally\<close> block runs.
\<close>

fun inner_close :: "('t \<Rightarrow> 'a world \<Rightarrow> 'a world) \<Rightarrow> 't inner_state \<Rightarrow> 'a world \<Rightarrow> 'a world" where
  "inner_close cl Inner_created w = w"
| "inner_close cl (Inner_fading st) w = w"
| "inner_close cl (Inner_awaiting t) w = cleanup (cl t w)"

section \<open>Layout under the scheduler\<close>

text \<open>
  How awaiting a \<^verbatim>\<open>Layout\<close> ends: \<^verbatim>\<open>Layout.__iter__\<close> returns the value of a raised \<^verbatim>\<open>Result\<close>,
  returns \<^verbatim>\<open>None\<close> when \<^verbatim>\<open>loop.spawn\<close> returns, and lets any other exception through.
\<close>

datatype 'v outcome = Resolved 'v | Returned_none | Failed error

definition layout_iter_result :: "'v exn + 'r \<Rightarrow> 'v outcome" where
  "layout_iter_result r =
     (case r of
        Inr u \<Rightarrow> Returned_none
      | Inl (Result v) \<Rightarrow> Resolved v
      | Inl (Failure e) \<Rightarrow> Failed e)"

text \<open>
  A \<^verbatim>\<open>Layout\<close> being awaited: the world, its two child tasks (\<open>None\<close> once a task is
  finished or closed), and how the \<^verbatim>\<open>Layout\<close> ended, if it has.
\<close>

record ('c, 'v) layout_state =
  env :: "'c world"
  render_task :: "unit inner_state option"
  input_task :: "input_state option"
  outcome :: "'v outcome option"

text \<open>
  The decisions of the scheduler: resume the render task, resume the input task for the
  first time, deliver a touch event to the input task, resume the background fade.
\<close>

datatype tick = Run_render | Run_input | Touch int int int | Run_slide

text \<open>
  Modelled from the spec: \<^verbatim>\<open>loop.spawn\<close> (\<^verbatim>\<open>trezor.loop\<close> is not part of the sources). It
  schedules every child; when the first child returns or raises, the other children are
  closed and the awaiting task is resumed with that value or exception.
\<close>

definition layout_start :: "'c world \<Rightarrow> ('c, 'v) layout_state" where
  "layout_start w =
     \<lparr>env = w, render_task = Some Inner_created, input_task = Some Input_created, outcome = None\<rparr>"

definition spawn_render_finished :: "'v exn + unit \<Rightarrow> ('c, 'v) layout_state \<Rightarrow> ('c, 'v) layout_state" where
  "spawn_render_finished r s =
     s\<lparr>render_task := None, input_task := None, outcome := Some (layout_iter_result r)\<rparr>"

definition spawn_input_finished :: "'v exn + unit \<Rightarrow> ('c, 'v) layout_state \<Rightarrow> ('c, 'v) layout_state" where
  "spawn_input_finished r s =
     s\<lparr>env := (case render_task s of
                 Some st \<Rightarrow> inner_close handle_rendering_close st (env s)
               | None \<Rightarrow> env s),
       render_task := None, input_task := None, outcome := Some (layout_iter_result r)\<rparr>"

definition layout_step ::
  "platform \<Rightarrow> ('m control_scheme, 'v) handlers \<Rightarrow> tick \<Rightarrow> ('m control_scheme, 'v) layout_state
     \<Rightarrow> ('m control_scheme, 'v) layout_state" where
  "layout_step P H t s =
     (case t of
        Run_render \<Rightarrow>
          (case render_task s of
             None \<Rightarrow> s
           | Some st \<Rightarrow>
               (case inner_resume P (Inr ()) (handle_rendering_resume P H) st (env s) of
                  (Suspend st', w') \<Rightarrow> s\<lparr>env := w', render_task := Some st'\<rparr>
                | (Return r, w') \<Rightarrow> spawn_render_finished (Inr r) (s\<lparr>env := w'\<rparr>)
                | (Raise e, w') \<Rightarrow> spawn_render_finished (Inl e) (s\<lparr>env := w'\<rparr>)))
      | Run_input \<Rightarrow>
          (case input_task s of
             Some Input_created \<Rightarrow>
               (case handle_input_resume P H Input_created (0, 0, 0) (env s) of
                  (Suspend st', w') \<Rightarrow> s\<lparr>env := w', input_task := Some st'\<rparr>
                | (Return r, w') \<Rightarrow> spawn_input_finished (Inr r) (s\<lparr>env := w'\<rparr>)
                | (Raise e, w') \<Rightarrow> spawn_input_finished (Inl e) (s\<lparr>env := w'\<rparr>))
           | other \<Rightarrow> s)
      | Touch event x y \<Rightarrow>
          (case input_task s of
             Some Input_waiting \<Rightarrow>
               (case handle_input_resume P H Input_waiting (event, x, y) (env s) of
                  (Suspend st', w') \<Rightarrow> s\<lparr>env := w', input_task := Some st'\<rparr>
                | (Return r, w') \<Rightarrow> spawn_input_finished (Inr r) (s\<lparr>env := w'\<rparr>)
                | (Raise e, w') \<Rightarrow> spawn_input_finished (Inl e) (s\<lparr>env := w'\<rparr>))
           | other \<Rightarrow> s)
      | Run_slide \<Rightarrow> s\<lparr>env := slide_task_step (env s)\<rparr>)"

definition layout_run ::
  "platform \<Rightarrow> ('m control_scheme, 'v) handlers \<Rightarrow> tick list \<Rightarrow> ('m control_scheme, 'v) layout_state
     \<Rightarrow> ('m control_scheme, 'v) layout_state" where
  "layout_run P H ticks s = foldl (\<lambda>s t. layout_step P H t s) s ticks"

text \<open>The calls of \<^verbatim>\<open>dispatch\<close> among the effects, in order.\<close>

fun dispatched :: "effect list \<Rightarrow> (int \<times> int \<times> int) list" where
  "dispatched [] = []"
| "dispatched (Dispatch event x y # es) = (event, x, y) # dispatched es"
| "dispatched (e # es) = dispatched es"

section \<open>Properties of effect sequences and example inputs\<close>

text \<open>
  Render-first ordering of a sequence of effects: every call of \<^verbatim>\<open>touch\<close> has a call of
  \<^verbatim>\<open>render\<close> somewhere before it, and every suspension comes directly after a call of
  \<^verbatim>\<open>render\<close>.
\<close>

definition render_first :: "effect list \<Rightarrow> bool" where
  "render_first es \<longleftrightarrow>
     (\<forall>i < length es. \<forall>event pos. es ! i = Touch_call event pos \<longrightarrow> (\<exists>j < i. es ! j = Render_call)) \<and>
     (\<forall>i < length es. \<forall>sc. es ! i = Yield sc \<longrightarrow> 0 < i \<and> es ! (i - 1) = Render_call)"

text \<open>
  The values of the loop of \<^verbatim>\<open>backlight_slide(BACKLIGHT_DIM)\<close> with its default step of 20,
  from the backlight level of a world.
\<close>

definition fade_values :: "platform \<Rightarrow> 'a world \<Rightarrow> int list" where
  "fade_values P w =
     (if backlight (disp w) > BACKLIGHT_DIM P
      then range_down (backlight (disp w)) (BACKLIGHT_DIM P) (- 20)
      else range_up (backlight (disp w)) (BACKLIGHT_DIM P) 20)"

text \<open>A \<^verbatim>\<open>Layout\<close> both of whose child tasks are finished or closed.\<close>

definition layout_over :: "('c, 'v) layout_state \<Rightarrow> bool" where
  "layout_over s \<longleftrightarrow> render_task s = None \<and> input_task s = None"

text \<open>
  Example inputs: a widget that counts its touch events and resolves to the position of
  the first event of kind 4; a world with the backlight at 5; a control whose
  \<^verbatim>\<open>on_touch_end\<close> raises \<^verbatim>\<open>Result(42)\<close>; and a \<^verbatim>\<open>Layout\<close> over it after the scheduler has
  started both tasks, run the fade once, rendered twice and delivered a touch start.
\<close>

definition example_widget :: "(nat, int list) widget" where
  "example_widget =
     \<lparr>render = Inr,
      touch = (\<lambda>event pos n. Inr (Suc n, if event = 4 then Some pos else None))\<rparr>"

definition example_world :: "'a \<Rightarrow> 'a world" where
  "example_world a = \<lparr>disp = \<lparr>backlight = 5, orientation = 0\<rparr>, effects = [], slide = Bg_none, app = a\<rparr>"

definition example_handlers :: "(control, int) handlers" where
  "example_handlers = control_handlers\<lparr>on_touch_end := (\<lambda>x y c. Inl (Result 42))\<rparr>"

definition example_layout :: "(control, int) layout_state" where
  "example_layout =
     layout_run trezor_t example_handlers [Run_render, Run_input, Run_slide, Run_render, Touch 1 10 10]
       (layout_start (example_world \<lparr>repaint = False\<rparr>))"

text \<open>
  The world after the loop of \<^verbatim>\<open>backlight_slide\<close>, and of \<^verbatim>\<open>alert\<close>, has run over a list
  of loop values (used to state what a completed run leaves behind).
\<close>

definition slide_steps :: "int \<Rightarrow> int list \<Rightarrow> 'a world \<Rightarrow> 'a world" where
  "slide_steps delay is w = foldl (\<lambda>w i. emit (Yield (Sleep delay)) (backlight_set i w)) w is"

definition alert_steps :: "platform \<Rightarrow> int list \<Rightarrow> 'a world \<Rightarrow> 'a world" where
  "alert_steps P is w =
     foldl (\<lambda>w i. if i mod 2 = 0
                   then emit (Yield (Sleep 20000)) (backlight_set (BACKLIGHT_MAX P) w)
                   else emit (Yield (Sleep 80000)) (backlight_set (BACKLIGHT_NORMAL P) w)) w is"

section \<open>Colour blending at the end points\<close>

lemma lerpi_0: "lerpi a b 0 = a"
  by (simp add: lerpi_def py_int_def)

lemma lerpi_1: "lerpi a b 1 = b"
  by (simp add: lerpi_def py_int_def)

lemma mask_F8: "(0xF8::int) = push_bit 3 (mask 5)"
  by (simp add: mask_eq_exp_minus_1)

lemma mask_FC: "(0xFC::int) = push_bit 2 (mask 6)"
  by (simp add: mask_eq_exp_minus_1)

lemma unpack_repack:
  assumes "0 \<le> c" "c < 65536"
  shows "rgb ((drop_bit 8 c) AND 0xF8) ((drop_bit 3 c) AND 0xFC) ((push_bit 3 c) AND 0xF8) = c"
proof -
  have c: "take_bit 16 c = c"
    using assms by (simp add: take_bit_int_eq_self)
  have "bit (take_bit 16 c) n =
      bit (rgb ((drop_bit 8 c) AND 0xF8) ((drop_bit 3 c) AND 0xFC) ((push_bit 3 c) AND 0xF8)) n" for n
  proof -
    have a: "8 \<le> n \<Longrightarrow> 8 + (n - 8) = n"
      by simp
    have b: "3 \<le> n \<Longrightarrow> 3 + (n - 3) = n"
      by simp
    show ?thesis
      unfolding rgb_def mask_F8 mask_FC
      by (cases "n < 5"; cases "n < 11"; cases "n < 16") (auto simp add: bit_simps a b)
  qed
  then have "take_bit 16 c =
      rgb ((drop_bit 8 c) AND 0xF8) ((drop_bit 3 c) AND 0xFC) ((push_bit 3 c) AND 0xF8)"
    by (rule bit_eqI)
  then show ?thesis
    using c by simp
qed

text \<open>
  C8: for all valid RGB565 colours \<open>a\<close> and \<open>b\<close>, \<open>blend a b 0 = a\<close> and
  \<open>blend a b 1 = b\<close>, exactly.
\<close>

theorem blend_end_points:
  assumes "rgb565 a" and "rgb565 b"
  shows "blend a b 0 = a \<and> blend a b 1 = b"
  using assms unpack_repack [of a] unpack_repack [of b]
  by (simp add: blend_def lerpi_0 lerpi_1 rgb565_def)

theorem blend_end_points_witness:
  "rgb565 0xF81F \<and> rgb565 0x07E0 \<and> blend 0xF81F 0x07E0 0 = 0xF81F \<and> blend 0xF81F 0x07E0 1 = 0x07E0"
proof -
  have a: "rgb565 0xF81F" and b: "rgb565 0x07E0"
    by (simp_all add: rgb565_def)
  show ?thesis
    using a b blend_end_points [OF a b] by simp
qed

section \<open>Rotation\<close>

text \<open>
  C4 (as amended): \<open>rotate\<close> is an involution at orientation 0 and at orientation 180;
  applying it once at each of the orientations 0, 90, 180, 270 in sequence maps
  \<open>(x, y)\<close> to \<open>(WIDTH - x, WIDTH - y)\<close>.
\<close>

theorem rotate_involution_and_sequence:
  "rotate_seq P d [0, 0] p = Inr (Some p) \<and>
   rotate_seq P d [180, 180] p = Inr (Some p) \<and>
   rotate_seq P d [0, 90, 180, 270] p = Inr (Some (WIDTH P - fst p, WIDTH P - snd p))"
  by (cases p) (simp add: rotate_def)

text \<open>
  The claim as stated fails: on a 240 \<times> 240 display the sequence 0, 90, 180, 270 takes
  the point \<open>(0, 0)\<close> to \<open>(240, 240)\<close>, not back to \<open>(0, 0)\<close>.
\<close>

theorem rotate_sequence_counterexample:
  "rotate_seq trezor_t \<lparr>backlight = 150, orientation = 0\<rparr> [0, 90, 180, 270] (0, 0) = Inr (Some (240, 240)) \<and>
   rotate_seq trezor_t \<lparr>backlight = 150, orientation = 0\<rparr> [0, 90, 180, 270] (0, 0) \<noteq> Inr (Some (0, 0))"
  by (simp add: rotate_def trezor_t_def)

text \<open>
  C5 (as amended): for every orientation value outside 0, 90, 180 and 270, \<open>rotate\<close>
  raises nothing and returns \<^verbatim>\<open>None\<close>.
\<close>

theorem rotate_unknown_orientation:
  assumes "orientation d \<notin> {0, 90, 180, 270}"
  shows "rotate P d p = Inr None"
  using assms by (cases p) (simp add: rotate_def)

theorem rotate_unknown_orientation_witness:
  "rotate trezor_t \<lparr>backlight = 150, orientation = 45\<rparr> (10, 20) = Inr None"
  using rotate_unknown_orientation [of "\<lparr>backlight = 150, orientation = 45\<rparr>" trezor_t "(10, 20)"]
  by simp

text \<open>
  The claim as stated fails: at orientation 45 the call does not fail, it returns.
\<close>

theorem rotate_unknown_orientation_counterexample:
  "\<not> isl (rotate trezor_t \<lparr>backlight = 150, orientation = 45\<rparr> (10, 20))"
  by (simp add: rotate_def)

section \<open>Grid\<close>

lemma in_cell_grid:
  assumes "0 < n_x" "0 < n_y"
  shows "in_cell (px, py) (grid i n_x n_y sx sy ex ey 1 1 0) \<longleftrightarrow>
     (i mod n_x) * ((ex - sx) div n_x) \<le> px - sx \<and>
     px - sx < (i mod n_x) * ((ex - sx) div n_x) + (ex - sx) div n_x \<and>
     (i div n_x) * ((ey - sy) div n_y) \<le> py - sy \<and>
     py - sy < (i div n_x) * ((ey - sy) div n_y) + (ey - sy) div n_y"
  using assms by (auto simp add: grid_def Let_def)

lemma strip_div:
  fixes c d w :: int
  assumes "c * w \<le> d" "d < c * w + w"
  shows "0 < w" and "d div w = c"
proof -
  show "0 < w"
    using assms by linarith
  have "d = w * c + (d - c * w)"
    by (simp add: mult.commute)
  then show "d div w = c"
    by (rule int_div_pos_eq) (use assms in simp_all)
qed

lemma strip_of_div:
  fixes d w :: int
  assumes "0 < w"
  shows "(d div w) * w \<le> d \<and> d < (d div w) * w + w"
proof -
  have "d = (d div w) * w + d mod w"
    by simp
  moreover have "0 \<le> d mod w" "d mod w < w"
    using assms by simp_all
  ultimately show ?thesis
    by linarith
qed

lemma div_less_bound:
  fixes d w n :: int
  assumes "0 < w" "d < n * w"
  shows "d div w < n"
proof (rule ccontr)
  assume "\<not> d div w < n"
  then have "n * w \<le> (d div w) * w"
    using assms(1) by (simp add: mult_right_mono)
  then show False
    using strip_of_div [OF assms(1), of d] assms(2) by linarith
qed

lemma index_div_mod:
  fixes n_x n_y i :: int
  assumes "0 < n_x" "0 \<le> i" "i < n_x * n_y"
  shows "0 \<le> i mod n_x" "i mod n_x < n_x" "0 \<le> i div n_x" "i div n_x < n_y"
proof -
  show "0 \<le> i mod n_x" "i mod n_x < n_x"
    using assms by simp_all
  show "0 \<le> i div n_x"
    using assms by (simp add: pos_imp_zdiv_nonneg_iff)
  show "i div n_x < n_y"
    using assms by (simp add: div_less_bound mult.commute)
qed

lemma cells_disjoint:
  assumes n: "0 < n_x" "0 < n_y"
    and i: "in_cell p (grid i n_x n_y sx sy ex ey 1 1 0)"
    and j: "in_cell p (grid j n_x n_y sx sy ex ey 1 1 0)"
  shows "i = j"
proof -
  obtain px py where p: "p = (px, py)"
    by (cases p)
  let ?w = "(ex - sx) div n_x" and ?h = "(ey - sy) div n_y"
  from i j have
    "(px - sx) div ?w = i mod n_x" "(px - sx) div ?w = j mod n_x"
    "(py - sy) div ?h = i div n_x" "(py - sy) div ?h = j div n_x"
    unfolding p in_cell_grid [OF n] by (simp_all add: strip_div)
  then have "i mod n_x = j mod n_x" "i div n_x = j div n_x"
    by simp_all
  then show ?thesis
    by (metis mult_div_mod_eq)
qed

lemma cell_in_covered_area:
  assumes n: "0 < n_x" "0 < n_y"
    and r: "0 \<le> i" "i < n_x * n_y"
    and i: "in_cell (px, py) (grid i n_x n_y sx sy ex ey 1 1 0)"
  shows "in_view sx sy (sx + n_x * ((ex - sx) div n_x)) (sy + n_y * ((ey - sy) div n_y)) (px, py)"
proof -
  let ?w = "(ex - sx) div n_x" and ?h = "(ey - sy) div n_y"
  let ?c = "i mod n_x" and ?r = "i div n_x"
  from i have b: "?c * ?w \<le> px - sx" "px - sx < ?c * ?w + ?w" "?r * ?h \<le> py - sy" "py - sy < ?r * ?h + ?h"
    unfolding in_cell_grid [OF n] by simp_all
  then have w: "0 < ?w" and h: "0 < ?h"
    by (simp_all add: strip_div(1))
  have c: "0 \<le> ?c" "?c + 1 \<le> n_x" and rr: "0 \<le> ?r" "?r + 1 \<le> n_y"
    using index_div_mod [OF n(1) r] by simp_all
  have "(?c + 1) * ?w \<le> n_x * ?w" "(?r + 1) * ?h \<le> n_y * ?h"
    using c rr w h by (simp_all add: mult_right_mono del: mult_cancel_right)
  moreover have "0 \<le> ?c * ?w" "0 \<le> ?r * ?h"
    using c rr w h by simp_all
  ultimately show ?thesis
    using b by (simp add: in_view_def algebra_simps)
qed

lemma covered_area_in_cell:
  assumes n: "0 < n_x" "0 < n_y"
    and v: "in_view sx sy (sx + n_x * ((ex - sx) div n_x)) (sy + n_y * ((ey - sy) div n_y)) (px, py)"
  shows "\<exists>i. 0 \<le> i \<and> i < n_x * n_y \<and> in_cell (px, py) (grid i n_x n_y sx sy ex ey 1 1 0)"
proof -
  let ?w = "(ex - sx) div n_x" and ?h = "(ey - sy) div n_y"
  from v have b: "0 \<le> px - sx" "px - sx < n_x * ?w" "0 \<le> py - sy" "py - sy < n_y * ?h"
    by (simp_all add: in_view_def)
  have w: "0 < ?w"
    using b(1,2) n(1) by (smt (verit) mult_nonneg_nonpos)
  have h: "0 < ?h"
    using b(3,4) n(2) by (smt (verit) mult_nonneg_nonpos)
  define c where "c = (px - sx) div ?w"
  define r where "r = (py - sy) div ?h"
  have c: "0 \<le> c" "c < n_x"
    using b(1,2) w by (simp_all add: c_def pos_imp_zdiv_nonneg_iff div_less_bound)
  have r: "0 \<le> r" "r < n_y"
    using b(3,4) h by (simp_all add: r_def pos_imp_zdiv_nonneg_iff div_less_bound)
  define i where "i = r * n_x + c"
  have m: "i mod n_x = c" and d: "i div n_x = r"
    using c n(1) by (simp_all add: i_def)
  have "r * n_x + c < r * n_x + n_x"
    using c by simp
  also have "\<dots> = (r + 1) * n_x"
    by (simp add: algebra_simps)
  also have "\<dots> \<le> n_y * n_x"
    using r n(1) by (simp add: mult_right_mono del: mult_cancel_right)
  finally have hi: "i < n_x * n_y"
    by (simp add: i_def mult.commute)
  have lo: "0 \<le> i"
    using c r n(1) by (simp add: i_def)
  have "in_cell (px, py) (grid i n_x n_y sx sy ex ey 1 1 0)"
    unfolding in_cell_grid [OF n] m d
    using strip_of_div [OF w, of "px - sx"] strip_of_div [OF h, of "py - sy"]
    by (simp add: c_def r_def)
  with lo hi show ?thesis
    by blast
qed

lemma covered_grid_cells:
  "covered (grid_cells n_x n_y sx sy ex ey) p \<longleftrightarrow>
     (\<exists>i. 0 \<le> i \<and> i < n_x * n_y \<and> in_cell p (grid i n_x n_y sx sy ex ey 1 1 0))"
  by (auto simp add: covered_def grid_cells_def list_ex_iff)

text \<open>
  C3 (as amended): for every \<open>n_x \<times> n_y\<close> grid with positive \<open>n_x\<close> and \<open>n_y\<close> (spacing 0,
  \<open>cells_x = cells_y = 1\<close>), two cells that share a pixel are the same cell, and the union
  of the cells \<open>grid i\<close> for \<open>i\<close> in \<open>[0, n_x * n_y)\<close> is exactly
  \<open>[start_x, start_x + n_x * w) \<times> [start_y, start_y + n_y * h)\<close>, where
  \<open>w = (end_x - start_x) div n_x\<close> and \<open>h = (end_y - start_y) div n_y\<close>. The union is the
  whole view rectangle when \<open>n_x\<close> divides the width of the view and \<open>n_y\<close> its height.
\<close>

theorem grid_partition:
  assumes "0 < n_x" and "0 < n_y"
  shows "(\<forall>i j p. in_cell p (grid i n_x n_y sx sy ex ey 1 1 0) \<and>
            in_cell p (grid j n_x n_y sx sy ex ey 1 1 0) \<longrightarrow> i = j) \<and>
         (\<forall>p. covered (grid_cells n_x n_y sx sy ex ey) p =
            in_view sx sy (sx + n_x * ((ex - sx) div n_x)) (sy + n_y * ((ey - sy) div n_y)) p) \<and>
         (n_x dvd ex - sx \<and> n_y dvd ey - sy \<longrightarrow>
            (\<forall>p. covered (grid_cells n_x n_y sx sy ex ey) p = in_view sx sy ex ey p))"
proof -
  have d: "\<forall>i j p. in_cell p (grid i n_x n_y sx sy ex ey 1 1 0) \<and>
            in_cell p (grid j n_x n_y sx sy ex ey 1 1 0) \<longrightarrow> i = j"
    using cells_disjoint [OF assms] by blast
  have u: "covered (grid_cells n_x n_y sx sy ex ey) p =
            in_view sx sy (sx + n_x * ((ex - sx) div n_x)) (sy + n_y * ((ey - sy) div n_y)) p" for p
  proof (cases p)
    case (Pair px py)
    show ?thesis
      unfolding Pair covered_grid_cells
      using cell_in_covered_area [OF assms] covered_area_in_cell [OF assms]
      by blast
  qed
  have e: "covered (grid_cells n_x n_y sx sy ex ey) p = in_view sx sy ex ey p"
    if "n_x dvd ex - sx" "n_y dvd ey - sy" for p
    using that by (simp add: u)
  from d u e show ?thesis
    by blast
qed

theorem grid_partition_witness:
  "(0::int) < 3 \<and> (0::int) < 5 \<and>
   covered (grid_cells 3 5 6 9 234 231) (233, 228) \<and>
   \<not> covered (grid_cells 3 5 6 9 234 231) (233, 229) \<and>
   covered (grid_cells 3 5 6 9 234 229) (233, 228) \<and>
   \<not> covered (grid_cells 3 5 6 9 234 229) (233, 229)"
  using grid_partition [of 3 5 6 9 234 231] grid_partition [of 3 5 6 9 234 229]
  by (simp add: in_view_def)

text \<open>
  The claim as stated fails: the 3 \<times> 5 grid over the view \<open>[6, 234) \<times> [9, 231)\<close> (the
  default view of a 240 \<times> 240 display) has cells of height \<open>222 div 5 = 44\<close>, so the rows
  229 and 230 of the view belong to no cell.
\<close>

theorem grid_union_counterexample:
  "in_view 6 9 234 231 (6, 229) \<and> \<not> covered (grid_cells 3 5 6 9 234 231) (6, 229)"
  by (simp add: in_view_def covered_def grid_cells_def grid_def upto.simps)

section \<open>Backlight animations\<close>

lemma range_up_bounds: "v \<in> set (range_up i stop step) \<Longrightarrow> i \<le> v \<and> v < stop"
proof (induction i stop step rule: range_up.induct)
  case (1 i stop step)
  show ?case
  proof (cases "0 < step \<and> i < stop")
    case True
    with "1.prems" have "v = i \<or> v \<in> set (range_up (i + step) stop step)"
      by (subst (asm) range_up.simps) auto
    with True "1.IH" show ?thesis
      by auto
  next
    case False
    with "1.prems" show ?thesis
      by (subst (asm) range_up.simps) auto
  qed
qed

lemma range_up_increasing: "sorted_wrt (<) (range_up i stop step)"
proof (induction i stop step rule: range_up.induct)
  case (1 i stop step)
  show ?case
  proof (cases "0 < step \<and> i < stop")
    case True
    have "i < v" if "v \<in> set (range_up (i + step) stop step)" for v
      using range_up_bounds [OF that] True by simp
    with True "1.IH" show ?thesis
      by (subst range_up.simps) auto
  next
    case False
    then show ?thesis
      by (subst range_up.simps) auto
  qed
qed

lemma range_up_last:
  "0 < step \<Longrightarrow> i < stop \<Longrightarrow>
     range_up i stop step \<noteq> [] \<and> stop - step \<le> last (range_up i stop step)"
proof (induction i stop step rule: range_up.induct)
  case (1 i stop step)
  show ?case
  proof (cases "i + step < stop")
    case True
    with "1.prems" "1.IH" show ?thesis
      by (subst (1 2) range_up.simps) auto
  next
    case False
    then have "range_up (i + step) stop step = []"
      by (subst range_up.simps) auto
    with False "1.prems" show ?thesis
      by (subst (1 2) range_up.simps) auto
  qed
qed

lemma range_up_empty: "range_up c c step = []"
  by (subst range_up.simps) simp

lemma range_down_empty: "range_down c c step = []"
  by (subst range_down.simps) simp

lemma py_range_empty: "step \<noteq> 0 \<Longrightarrow> py_range c c step = Inr []"
  by (simp add: py_range_def range_up_empty range_down_empty)

lemma run_slide_running:
  "run_task backlight_slide_resume (Suc (length is)) (Slide_running delay is) w =
     (Some (Inr ()), slide_steps delay is w)"
  by (induction "is" arbitrary: w) (simp_all add: slide_steps_def)

lemma backlight_writes_append:
  "backlight_writes (es @ fs) = backlight_writes es @ backlight_writes fs"
  by (induction es rule: backlight_writes.induct) simp_all

lemma slide_steps_writes:
  "backlight_writes (effects (slide_steps delay is w)) = backlight_writes (effects w) @ is"
  by (induction "is" arbitrary: w)
    (simp_all add: slide_steps_def emit_def backlight_set_def backlight_writes_append)

lemma slide_steps_backlight:
  "backlight (disp (slide_steps delay is w)) = last (backlight (disp w) # is)"
  by (induction "is" arbitrary: w)
    (simp_all add: slide_steps_def emit_def backlight_set_def)

lemma run_slide_created:
  assumes "py_range (backlight (disp w)) val (if backlight (disp w) > val then - step else step) = Inr is"
  shows "run_task backlight_slide_resume (Suc (length is)) (Slide_created val delay step) w =
     (Some (Inr ()), slide_steps delay is w)"
proof (cases "is")
  case Nil
  with assms show ?thesis
    by (simp add: slide_steps_def)
next
  case (Cons i js)
  with assms run_slide_running [of js delay "emit (Yield (Sleep delay)) (backlight_set i w)"]
  show ?thesis
    by (simp add: slide_steps_def)
qed

text \<open>
  C7: from a backlight level strictly below the target, with a positive step,
  \<open>backlight_slide\<close> run by the scheduler finishes after finitely many resumptions (one per
  emitted value and a last one that ends the loop); the values it writes are strictly
  increasing, all strictly below the target, there is at least one, the last one is below
  the target by at most \<open>step\<close>, and the target itself is never written.
\<close>

theorem backlight_slide_upward:
  assumes "backlight (disp w) < val" and "0 < step"
  shows "(let vals = range_up (backlight (disp w)) val step;
              (r, w') = run_task backlight_slide_resume (Suc (length vals)) (Slide_created val delay step) w
          in r = Some (Inr ()) \<and>
             backlight_writes (effects w') = backlight_writes (effects w) @ vals \<and>
             sorted_wrt (<) vals \<and> vals \<noteq> [] \<and> val \<notin> set vals \<and>
             list_all (\<lambda>v. v < val) vals \<and>
             last vals < val \<and> val - last vals \<le> step \<and>
             backlight (disp w') = last vals)"
proof -
  let ?vals = "range_up (backlight (disp w)) val step"
  have r: "py_range (backlight (disp w)) val (if backlight (disp w) > val then - step else step) = Inr ?vals"
    using assms by (simp add: py_range_def)
  have b: "v < val" if "v \<in> set ?vals" for v
    using range_up_bounds [OF that] by simp
  have n: "?vals \<noteq> []" and l: "val - step \<le> last ?vals"
    using range_up_last [OF assms(2,1)] by simp_all
  have "last ?vals \<in> set ?vals"
    using n by simp
  then have ll: "last ?vals < val"
    by (rule b)
  have nm: "val \<notin> set ?vals"
    using b by blast
  have la: "list_all (\<lambda>v. v < val) ?vals"
    using b by (simp add: list_all_iff)
  have run: "run_task backlight_slide_resume (Suc (length ?vals)) (Slide_created val delay step) w =
     (Some (Inr ()), slide_steps delay ?vals w)"
    by (rule run_slide_created [OF r])
  show ?thesis
    unfolding Let_def run
    using n l ll nm la range_up_increasing [of "backlight (disp w)" val step]
    by (simp add: slide_steps_writes slide_steps_backlight)
qed


theorem backlight_slide_upward_witness:
  "backlight (disp \<lparr>disp = \<lparr>backlight = 5, orientation = 0\<rparr>, effects = [], slide = Bg_none, app = ()\<rparr>) < 150 \<and>
   (0::int) < 20 \<and>
   fst (run_task backlight_slide_resume 9 (Slide_created 150 35000 20)
     \<lparr>disp = \<lparr>backlight = 5, orientation = 0\<rparr>, effects = [], slide = Bg_none, app = ()\<rparr>) = Some (Inr ()) \<and>
   backlight_writes (effects (snd (run_task backlight_slide_resume 9 (Slide_created 150 35000 20)
     \<lparr>disp = \<lparr>backlight = 5, orientation = 0\<rparr>, effects = [], slide = Bg_none, app = ()\<rparr>))) =
     [5, 25, 45, 65, 85, 105, 125, 145]"
proof -
  have r: "range_up 5 150 20 = [5, 25, 45, 65, 85, 105, 125, 145]"
    by (simp add: range_up.simps)
  show ?thesis
    using backlight_slide_upward [of "\<lparr>disp = \<lparr>backlight = 5, orientation = 0\<rparr>, effects = [], slide = Bg_none, app = ()\<rparr>" 150 20 35000]
    by (simp add: r case_prod_beta eval_nat_numeral del: run_task.simps)
qed

text \<open>
  C10: when the backlight already equals the target, \<open>backlight_slide\<close> finishes at its first
  resumption and \<open>backlight_slide_sync\<close> returns, both without any step: nothing is written
  and the world is unchanged. (With \<open>step = 0\<close> the range raises \<^verbatim>\<open>ValueError\<close>, also without
  any write.)
\<close>

theorem backlight_slide_at_target:
  "run_task backlight_slide_resume 1 (Slide_created (backlight (disp w)) delay step) w =
     (if step = 0 then Some (Inl ValueError) else Some (Inr ()), w) \<and>
   backlight_slide_sync (backlight (disp w)) delay step w =
     (if step = 0 then Inl ValueError else Inr (), w)"
  by (simp add: backlight_slide_sync_def py_range_def range_up_empty range_down_empty Let_def)

lemma run_alert_running:
  "run_task (alert_resume P) (Suc (length is)) (Alert_running current is) w =
     (Some (Inr ()), backlight_set current (alert_steps P is w))"
  by (induction "is" arbitrary: w) (simp_all add: alert_steps_def)

lemma run_task_same_resume:
  "resume st w = resume st' w \<Longrightarrow> run_task resume (Suc n) st w = run_task resume (Suc n) st' w"
  by simp

lemma run_alert_created:
  "run_task (alert_resume P) (Suc (length (range_up 0 (count * 2) 1))) (Alert_created count) w =
     (Some (Inr ()), backlight_set (backlight (disp w)) (alert_steps P (range_up 0 (count * 2) 1) w))"
proof -
  have e: "alert_resume P (Alert_created count) w =
      alert_resume P (Alert_running (backlight (disp w)) (range_up 0 (count * 2) 1)) w"
    by (simp add: py_range_def Let_def)
  show ?thesis
    unfolding run_task_same_resume [of "alert_resume P", OF e]
    by (rule run_alert_running)
qed

lemma length_range_up_1: "length (range_up i stop 1) = nat (stop - i)"
proof (induction i stop "1::int" rule: range_up.induct)
  case (1 i stop)
  then show ?case
    by (subst range_up.simps) auto
qed

text \<open>
  C6: \<open>alert count\<close> run to completion leaves the backlight at the value read at entry, for
  every \<open>count\<close>; for \<open>count = 3\<close> it suspends exactly six times, three times on the short
  sleep after setting the backlight to the maximum and three times on the long sleep after
  setting it to normal, in alternation, and then writes the value read at entry.
\<close>

theorem alert_restores_backlight:
  "(let (r, w') = run_task (alert_resume P) (Suc (nat (count * 2))) (Alert_created count) w
    in r = Some (Inr ()) \<and> backlight (disp w') = backlight (disp w)) \<and>
   run_task (alert_resume P) 7 (Alert_created 3) w =
     (Some (Inr ()),
      w\<lparr>effects := effects w @
        [Backlight_write (BACKLIGHT_MAX P), Yield (Sleep 20000),
         Backlight_write (BACKLIGHT_NORMAL P), Yield (Sleep 80000),
         Backlight_write (BACKLIGHT_MAX P), Yield (Sleep 20000),
         Backlight_write (BACKLIGHT_NORMAL P), Yield (Sleep 80000),
         Backlight_write (BACKLIGHT_MAX P), Yield (Sleep 20000),
         Backlight_write (BACKLIGHT_NORMAL P), Yield (Sleep 80000),
         Backlight_write (backlight (disp w))]\<rparr>)"
proof -
  have a: "run_task (alert_resume P) (Suc (nat (count * 2))) (Alert_created count) w =
     (Some (Inr ()), backlight_set (backlight (disp w)) (alert_steps P (range_up 0 (count * 2) 1) w))"
    using run_alert_created [of P count w] by (simp add: length_range_up_1)
  have r: "range_up 0 6 1 = [0, 1, 2, 3, 4, 5]"
    by (simp add: range_up.simps)
  have b: "run_task (alert_resume P) 7 (Alert_created 3) w =
     (Some (Inr ()), backlight_set (backlight (disp w)) (alert_steps P (range_up 0 (3 * 2) 1) w))"
    using run_alert_created [of P 3 w] by (simp add: length_range_up_1 del: run_task.simps)
  show ?thesis
    unfolding a b
    by (simp add: r alert_steps_def backlight_set_def emit_def)
qed

section \<open>Widget: render before touch\<close>

lemma render_first_snoc:
  assumes es: "render_first es"
    and t: "\<And>event pos. x = Touch_call event pos \<Longrightarrow> Render_call \<in> set es"
    and y: "\<And>sc. x = Yield sc \<Longrightarrow> es \<noteq> [] \<and> last es = Render_call"
  shows "render_first (es @ [x])"
proof -
  have a: "\<exists>j<i. (es @ [x]) ! j = Render_call"
    if i: "i < length (es @ [x])" and e: "(es @ [x]) ! i = Touch_call event pos" for i event pos
  proof (cases "i < length es")
    case True
    with e have "es ! i = Touch_call event pos"
      by (simp add: nth_append)
    with es True obtain j where "j < i" "es ! j = Render_call"
      unfolding render_first_def by blast
    with True have "j < i \<and> (es @ [x]) ! j = Render_call"
      by (simp add: nth_append)
    then show ?thesis
      by blast
  next
    case False
    with i have l: "i = length es"
      by simp
    with e have "x = Touch_call event pos"
      by simp
    from t [OF this] obtain j where "j < length es" "es ! j = Render_call"
      unfolding in_set_conv_nth by blast
    with l have "j < i \<and> (es @ [x]) ! j = Render_call"
      by (simp add: nth_append)
    then show ?thesis
      by blast
  qed
  have b: "0 < i \<and> (es @ [x]) ! (i - 1) = Render_call"
    if i: "i < length (es @ [x])" and e: "(es @ [x]) ! i = Yield sc" for i sc
  proof (cases "i < length es")
    case True
    with e have "es ! i = Yield sc"
      by (simp add: nth_append)
    with es True have "0 < i \<and> es ! (i - 1) = Render_call"
      unfolding render_first_def by blast
    then have p: "0 < i" and q: "es ! (i - 1) = Render_call"
      by simp_all
    from True have "i - 1 < length es"
      by simp
    with p q show ?thesis
      by (simp add: nth_append)
  next
    case False
    with i have l: "i = length es"
      by simp
    with e have "x = Yield sc"
      by simp
    from y [OF this] have n: "es \<noteq> []" and "last es = Render_call"
      by simp_all
    then have q: "es ! (length es - 1) = Render_call"
      by (simp add: last_conv_nth)
    from n have "length es - 1 < length es"
      by simp
    with n q l show ?thesis
      by (simp add: nth_append)
  qed
  from a b show ?thesis
    unfolding render_first_def by blast
qed

lemma render_first_emit_render:
  assumes "render_first (effects w)"
  shows "render_first (effects (emit Render_call w))"
proof -
  have "render_first (effects w @ [Render_call])"
    using assms by (rule render_first_snoc) simp_all
  then show ?thesis
    by (simp add: emit_def)
qed

lemma render_first_emit_yield:
  assumes "render_first (effects w)"
  shows "render_first (effects (emit (Yield sc) (emit Render_call w)))"
proof -
  have "render_first (effects w @ [Render_call])"
    using assms by (rule render_first_snoc) simp_all
  then have "render_first ((effects w @ [Render_call]) @ [Yield sc])"
    by (rule render_first_snoc) simp_all
  then show ?thesis
    by (simp add: emit_def)
qed

lemma render_first_emit_touch:
  assumes "render_first (effects w)"
  shows "render_first (effects (emit (Touch_call event pos) (emit (Yield sc) (emit Render_call w))))"
proof -
  have "render_first (effects w @ [Render_call])"
    using assms by (rule render_first_snoc) simp_all
  then have "render_first ((effects w @ [Render_call]) @ [Yield sc])"
    by (rule render_first_snoc) simp_all
  then have "render_first (((effects w @ [Render_call]) @ [Yield sc]) @ [Touch_call event pos])"
    by (rule render_first_snoc) simp_all
  then show ?thesis
    by (simp add: emit_def)
qed

lemma widget_iter_render_first:
  "render_first (effects w) \<Longrightarrow> render_first (effects (snd (widget_iter P W evs w)))"
proof (induction P W evs w rule: widget_iter.induct)
  case (1 P W w)
  then show ?case
    using render_first_emit_render [of w] render_first_emit_yield [of "w\<lparr>app := s\<rparr>" for s]
    by (auto split: sum.splits simp add: emit_def)
next
  case (2 P W event pos rest w)
  show ?case
  proof (cases "render W (app w)")
    case (Inl e)
    with "2.prems" show ?thesis
      using render_first_emit_render [of w] by simp
  next
    case (Inr s1)
    let ?w1 = "emit (Touch_call event pos)
                      (emit (Yield (Wait (TOUCH P))) (emit Render_call (w\<lparr>app := s1\<rparr>)))"
    have w1: "render_first (effects ?w1)"
      using "2.prems" render_first_emit_touch [of "w\<lparr>app := s1\<rparr>"] by simp
    show ?thesis
    proof (cases "touch W event pos s1")
      case (Inl e)
      with Inr w1 show ?thesis
        by simp
    next
      case r: (Inr p)
      obtain s2 res where p: "p = (s2, res)"
        by (cases p)
      show ?thesis
      proof (cases res)
        case None
        have "render_first (effects (?w1\<lparr>app := s2\<rparr>))"
          using w1 by simp
        from "2.IH" [OF Inr refl r [unfolded p] refl None this] Inr r p None
        show ?thesis
          by simp
      next
        case (Some a)
        with Inr r p w1 show ?thesis
          by simp
      qed
    qed
  qed
qed

lemma widget_iter_starts_with_render:
  "\<exists>more. effects (snd (widget_iter P W evs w)) = effects w @ Render_call # more"
proof (induction P W evs w rule: widget_iter.induct)
  case (1 P W w)
  then show ?case
    by (auto split: sum.splits simp add: emit_def)
next
  case (2 P W event pos rest w)
  show ?case
  proof (cases "render W (app w)")
    case (Inl e)
    then show ?thesis
      by (simp add: emit_def)
  next
    case (Inr s1)
    let ?w1 = "emit (Touch_call event pos)
                      (emit (Yield (Wait (TOUCH P))) (emit Render_call (w\<lparr>app := s1\<rparr>)))"
    show ?thesis
    proof (cases "touch W event pos s1")
      case (Inl e)
      with Inr show ?thesis
        by (simp add: emit_def)
    next
      case r: (Inr p)
      obtain s2 res where p: "p = (s2, res)"
        by (cases p)
      show ?thesis
      proof (cases res)
        case None
        from "2.IH" [OF Inr refl r [unfolded p] refl None] Inr r p None
        show ?thesis
          by (auto simp add: emit_def)
      next
        case (Some a)
        with Inr r p show ?thesis
          by (simp add: emit_def)
      qed
    qed
  qed
qed

text \<open>
  C2: for every widget and every sequence of touch events sent into its iteration, the
  effects start with a call of \<open>render\<close>, every touch event passed to \<open>touch\<close> has a call of
  \<open>render\<close> before it, and every suspension that waits for the next touch event comes
  directly after the call of \<open>render\<close> of its iteration.
\<close>

theorem widget_render_before_touch:
  "render_first (effects (snd (widget_iter P W evs (w\<lparr>effects := []\<rparr>)))) \<and>
   (\<exists>more. effects (snd (widget_iter P W evs (w\<lparr>effects := []\<rparr>))) = Render_call # more)"
proof
  show "render_first (effects (snd (widget_iter P W evs (w\<lparr>effects := []\<rparr>))))"
    by (rule widget_iter_render_first) (simp add: render_first_def)
  show "\<exists>more. effects (snd (widget_iter P W evs (w\<lparr>effects := []\<rparr>))) = Render_call # more"
    using widget_iter_starts_with_render [of P W evs "w\<lparr>effects := []\<rparr>"] by simp
qed

theorem widget_render_before_touch_witness:
  "widget_iter trezor_t example_widget [(1, [10, 20]), (4, [10, 20])] (example_world 0) =
     (Widget_returned [10, 20],
      (example_world 2)\<lparr>effects :=
        [Render_call, Yield (Wait 255), Touch_call 1 [10, 20],
         Render_call, Yield (Wait 255), Touch_call 4 [10, 20]]\<rparr>) \<and>
   render_first
     [Render_call, Yield (Wait 255), Touch_call 1 [10, 20],
      Render_call, Yield (Wait 255), Touch_call 4 [10, 20]]"
proof -
  have e: "widget_iter trezor_t example_widget [(1, [10, 20]), (4, [10, 20])] (example_world 0) =
     (Widget_returned [10, 20],
      (example_world 2)\<lparr>effects :=
        [Render_call, Yield (Wait 255), Touch_call 1 [10, 20],
         Render_call, Yield (Wait 255), Touch_call 4 [10, 20]]\<rparr>)"
    by (simp add: example_widget_def example_world_def trezor_t_def emit_def)
  have w: "(example_world (0::nat))\<lparr>effects := []\<rparr> = example_world 0"
    by (simp add: example_world_def)
  show ?thesis
    using widget_render_before_touch [of trezor_t example_widget "[(1, [10, 20]), (4, [10, 20])]" "example_world 0"]
    unfolding w e by simp
qed

section \<open>Layout decorator: cleanup\<close>

lemma slide_steps_effects:
  "effects (slide_steps delay is w) =
     effects w @ concat (map (\<lambda>i. [Backlight_write i, Yield (Sleep delay)]) is)"
  by (induction "is" arbitrary: w) (simp_all add: slide_steps_def emit_def backlight_set_def)

lemma run_inner_fading_construct_fails:
  "run_task (inner_resume P (Inl e) resume) (Suc (length is)) (Inner_fading (Slide_running delay is)) w =
     (Some (Inl (Failure NameError)),
      loop_close_slide ((slide_steps delay is w)
        \<lparr>slide := Bg_created (Slide_created (BACKLIGHT_NORMAL P) 35000 20)\<rparr>))"
  by (induction "is" arbitrary: w) (simp_all add: slide_steps_def inner_fade_def inner_try_def)

text \<open>
  C9, on the exit path where the call of the wrapped function raises: \<open>inner\<close> is resumed
  through its fade to \<open>BACKLIGHT_DIM\<close>, then the \<^verbatim>\<open>finally\<close> block closes the fade task and
  raises \<^verbatim>\<open>NameError\<close> on the unbound \<^verbatim>\<open>layout\<close>. The last effect is \<open>Close_slide\<close>:
  \<^verbatim>\<open>workflow.onlayoutclose\<close> is not called, and the exception of the wrapped function is
  replaced.
\<close>

theorem layout_construct_failure:
  "(let (r, w') = run_task (inner_resume P (Inl e) resume) (Suc (length (fade_values P w))) Inner_created w
    in r = Some (Inl (Failure NameError)) \<and>
       effects w' = effects w @
         concat (map (\<lambda>i. [Backlight_write i, Yield (Sleep 35000)]) (fade_values P w)) @ [Close_slide])"
proof -
  have "inner_resume P (Inl e) resume Inner_created w =
      inner_resume P (Inl e) resume (Inner_fading (Slide_running 35000 (fade_values P w))) w"
    by (simp add: inner_fade_def py_range_def fade_values_def Let_def)
  from run_task_same_resume [of "inner_resume P (Inl e) resume", OF this]
  show ?thesis
    by (simp add: run_inner_fading_construct_fails slide_steps_effects loop_close_slide_def emit_def
        del: run_task.simps)
qed

text \<open>
  The other exit paths inside \<^verbatim>\<open>await layout\<close> (the layout returns, raises, or \<open>inner\<close> is
  closed) run both steps of the cleanup; closing \<open>inner\<close> during its first fade runs none.
\<close>

lemma layout_cleanup_on_exit:
  "resume t w = (Return r, w') \<Longrightarrow>
     inner_resume P fn resume (Inner_awaiting t) w = (Return r, emit On_layout_close (loop_close_slide w'))"
  "resume t w = (Raise x, w') \<Longrightarrow>
     inner_resume P fn resume (Inner_awaiting t) w = (Raise x, emit On_layout_close (loop_close_slide w'))"
  "inner_close cl (Inner_awaiting t) w = emit On_layout_close (loop_close_slide (cl t w))"
  "inner_close cl (Inner_fading st) w = w"
  by (simp_all add: inner_await_layout_def cleanup_def)


section \<open>Layout: termination by Result\<close>

lemma dispatched_append: "dispatched (es @ fs) = dispatched es @ dispatched fs"
  by (induction es rule: dispatched.induct) simp_all

lemma slide_loop_dispatched:
  "dispatched (effects (snd (slide_loop delay is w))) = dispatched (effects w)"
  by (cases "is") (simp_all add: emit_def backlight_set_def dispatched_append)

lemma backlight_slide_resume_dispatched:
  "dispatched (effects (snd (backlight_slide_resume st w))) = dispatched (effects w)"
  by (cases st) (simp_all add: slide_loop_dispatched Let_def split: sum.splits)

lemma slide_task_step_dispatched:
  "dispatched (effects (slide_task_step w)) = dispatched (effects w)"
proof (cases "slide w")
  case (Bg_scheduled st)
  obtain r w' where r: "backlight_slide_resume st w = (r, w')"
    by (cases "backlight_slide_resume st w")
  with backlight_slide_resume_dispatched [of st w]
  have "dispatched (effects w') = dispatched (effects w)"
    by simp
  with Bg_scheduled r show ?thesis
    by (cases r) (simp_all add: slide_task_step_def)
qed (simp_all add: slide_task_step_def)

lemma layout_step_over:
  assumes "layout_over s"
  shows "layout_over (layout_step P H t s) \<and>
         outcome (layout_step P H t s) = outcome s \<and>
         dispatched (effects (env (layout_step P H t s))) = dispatched (effects (env s))"
  using assms
  by (cases t) (simp_all add: layout_over_def layout_step_def slide_task_step_dispatched)

lemma layout_run_over:
  assumes "layout_over s"
  shows "layout_over (layout_run P H ticks s) \<and>
         outcome (layout_run P H ticks s) = outcome s \<and>
         dispatched (effects (env (layout_run P H ticks s))) = dispatched (effects (env s))"
  using assms
proof (induction ticks arbitrary: s)
  case Nil
  then show ?case
    by (simp add: layout_run_def)
next
  case (Cons t ticks)
  from layout_step_over [OF Cons.prems, of P H t]
  have o: "layout_over (layout_step P H t s)"
    and e: "outcome (layout_step P H t s) = outcome s"
      "dispatched (effects (env (layout_step P H t s))) = dispatched (effects (env s))"
    by simp_all
  from Cons.IH [OF o] e show ?case
    by (simp add: layout_run_def)
qed

lemma cleanup_dispatched: "dispatched (effects (cleanup w)) = dispatched (effects w)"
  by (simp add: cleanup_def loop_close_slide_def emit_def dispatched_append)

lemma inner_close_dispatched:
  "dispatched (effects (inner_close handle_rendering_close st w)) = dispatched (effects w)"
  by (cases st) (simp_all add: cleanup_dispatched handle_rendering_close_def)

lemma layout_step_result:
  assumes "input_task s = Some Input_waiting"
    and "dispatch P H event x y (app (env s)) = Inl (Result v)"
  shows "layout_over (layout_step P H (Touch event x y) s)"
    and "outcome (layout_step P H (Touch event x y) s) = Some (Resolved v)"
    and "dispatched (effects (env (layout_step P H (Touch event x y) s))) =
           dispatched (effects (env s)) @ [(event, x, y)]"
  using assms
  by (simp_all add: layout_step_def do_dispatch_def spawn_input_finished_def layout_over_def
      layout_iter_result_def inner_close_dispatched emit_def dispatched_append split: option.splits)

text \<open>
  C1: when the input task of a \<open>Layout\<close> dispatches a touch event whose handler raises
  \<open>Result v\<close>, the \<open>Layout\<close> resolves to \<open>v\<close> and its render task is gone; whatever the
  scheduler does afterwards, the outcome stays \<open>v\<close> and nothing more is dispatched to the
  control: that event is the last dispatch, so no further \<open>RENDER\<close> follows it.
\<close>

theorem layout_result_cancels_render:
  assumes "input_task s = Some Input_waiting"
    and "dispatch P H event x y (app (env s)) = Inl (Result v)"
  shows "outcome (layout_run P H (Touch event x y # ticks) s) = Some (Resolved v) \<and>
         render_task (layout_run P H (Touch event x y # ticks) s) = None \<and>
         dispatched (effects (env (layout_run P H (Touch event x y # ticks) s))) =
           dispatched (effects (env s)) @ [(event, x, y)]"
proof -
  have r: "layout_run P H (Touch event x y # ticks) s =
      layout_run P H ticks (layout_step P H (Touch event x y) s)"
    by (simp add: layout_run_def)
  show ?thesis
    unfolding r
    using layout_run_over [OF layout_step_result(1) [OF assms], of P H ticks]
      layout_step_result(2,3) [OF assms]
    by (simp add: layout_over_def)
qed

lemma example_layout_eval:
  "example_layout =
     \<lparr>env = \<lparr>disp = \<lparr>backlight = 5, orientation = 0\<rparr>,
              effects = [Schedule_slide, Display_clear, Dispatch (- 1234) 0 0, Yield (Sleep 10000),
                Yield (Wait 255), Backlight_write 5, Yield (Sleep 35000),
                Dispatch (- 1234) 0 0, Yield (Sleep 10000), Dispatch 1 10 10, Yield (Wait 255)],
              slide = Bg_scheduled (Slide_running 35000 [25, 45, 65, 85, 105, 125, 145]),
              app = \<lparr>repaint = False\<rparr>\<rparr>,
      render_task = Some (Inner_awaiting ()), input_task = Some Input_waiting, outcome = None\<rparr>"
  by (simp add: example_layout_def layout_run_def layout_start_def example_world_def
      layout_step_def trezor_t_def example_handlers_def control_handlers_def
      inner_fade_def inner_try_def inner_await_layout_def handle_rendering_resume_def
      do_dispatch_def dispatch_def RENDER_def REPAINT_def py_range_def range_up.simps range_down.simps
      loop_schedule_slide_def display_clear_def emit_def backlight_set_def slide_task_step_def Let_def)

theorem layout_result_cancels_render_witness:
  "input_task example_layout = Some Input_waiting \<and>
   dispatch trezor_t example_handlers 4 10 10 (app (env example_layout)) = Inl (Result 42) \<and>
   outcome (layout_run trezor_t example_handlers
     [Touch 4 10 10, Run_render, Run_slide, Run_render] example_layout) = Some (Resolved 42) \<and>
   render_task (layout_run trezor_t example_handlers
     [Touch 4 10 10, Run_render, Run_slide, Run_render] example_layout) = None \<and>
   dispatched (effects (env (layout_run trezor_t example_handlers
     [Touch 4 10 10, Run_render, Run_slide, Run_render] example_layout))) =
     [(- 1234, 0, 0), (- 1234, 0, 0), (1, 10, 10), (4, 10, 10)]"
proof -
  have i: "input_task example_layout = Some Input_waiting"
    by (simp add: example_layout_eval)
  have d: "dispatch trezor_t example_handlers 4 10 10 (app (env example_layout)) = Inl (Result 42)"
    by (simp add: example_layout_eval dispatch_def trezor_t_def example_handlers_def
        control_handlers_def RENDER_def)
  have e: "dispatched (effects (env example_layout)) = [(- 1234, 0, 0), (- 1234, 0, 0), (1, 10, 10)]"
    by (simp add: example_layout_eval)
  show ?thesis
    using i d layout_result_cancels_render [OF i d, of "[Run_render, Run_slide, Run_render]"]
    by (simp add: e)
qed

end
